theory Spec2Isabelle
  imports Complex_Main "HOL-Library.Word"
begin

section \<open>JavaScript values used by \<open>utils/common.ts\<close>\<close>

text \<open>
  A JavaScript number is modelled as a real number: the arithmetic of the functions below
  (\<open>*\<close>, \<open>/\<close>, \<open>Math.round\<close>, \<open>Math.floor\<close>, \<open>Math.min\<close>, \<open>Math.max\<close>, \<open>===\<close>) is
  taken exactly, so the rounding of IEEE doubles is outside the model, and so are \<open>NaN\<close>
  and the infinities except for the opacity of \<open>hexToRgba\<close>, which has them.
  \<open>undefined\<close> for an optional field or parameter is \<open>None\<close>.
\<close>

type_synonym number = real

definition Math_round :: "number \<Rightarrow> int" where
  \<comment> \<open>\<open>Math.round\<close>: the nearest integer, a tie going towards plus infinity.\<close>
  "Math_round v = \<lfloor>v + 1 / 2\<rfloor>"

definition Math_floor :: "number \<Rightarrow> int" where
  "Math_floor v = \<lfloor>v\<rfloor>"

subsection \<open>Numbers to strings\<close>

definition digit_char :: "nat \<Rightarrow> char" where
  \<comment> \<open>The digit of value \<open>d\<close>, for \<open>d\<close> below 36.\<close>
  "digit_char d = ''0123456789abcdefghijklmnopqrstuvwxyz'' ! d"

function nat_toString :: "nat \<Rightarrow> nat \<Rightarrow> string" where
  \<comment> \<open>The digits of a natural number in a radix from 2 to 36, as the callers use it.\<close>
  "nat_toString radix n =
     (if radix < 2 \<or> n < radix then [digit_char n]
      else nat_toString radix (n div radix) @ [digit_char (n mod radix)])"
  by pat_completeness auto
termination
  by (relation "measure (\<lambda>(radix, n). n)") auto

definition int_toString :: "nat \<Rightarrow> int \<Rightarrow> string" where
  \<comment> \<open>\<open>n.toString(radix)\<close> and \<open>`${n}`\<close> (radix 10) for an integral number \<open>n\<close>.\<close>
  "int_toString radix i =
     (if i < 0 then CHR ''-'' # nat_toString radix (nat (- i)) else nat_toString radix (nat i))"

fun frac_digits :: "nat \<Rightarrow> number \<Rightarrow> string" where
  "frac_digits 0 f = []"
| "frac_digits (Suc k) f =
     (if f = 0 then []
      else digit_char (nat \<lfloor>f * 10\<rfloor>) # frac_digits k (f * 10 - of_int \<lfloor>f * 10\<rfloor>))"

definition Number_toString :: "number \<Rightarrow> string" where
  \<comment> \<open>\<open>`${v}`\<close> for a number: sign, integer part, and the decimal fraction without
      trailing zeros (at most 20 places). This is what JavaScript prints for integers
      and short decimals of moderate size, such as the hundredths the functions below
      compute; exponent notation and the shortest round-trip digits of other doubles are
      not modelled.\<close>
  "Number_toString v =
     (let m = \<bar>v\<bar>; i = \<lfloor>m\<rfloor>; f = m - of_int i
      in (if v < 0 then ''-'' else '''') @ nat_toString 10 (nat i) @
         (if f = 0 then '''' else ''.'' @ frac_digits 20 f))"

definition toUpperCase_char :: "char \<Rightarrow> char" where
  "toUpperCase_char c =
     (case map_of (zip ''abcdefghijklmnopqrstuvwxyz'' ''ABCDEFGHIJKLMNOPQRSTUVWXYZ'') c of
        None \<Rightarrow> c | Some u \<Rightarrow> u)"

definition toUpperCase :: "string \<Rightarrow> string" where
  "toUpperCase s = map toUpperCase_char s"

definition shl32 :: "int \<Rightarrow> nat \<Rightarrow> int" where
  \<comment> \<open>\<open>x << n\<close>: the operand is taken to a signed 32-bit integer, shifted, and read back
      as a signed 32-bit integer.\<close>
  "shl32 v n = sint (push_bit n (word_of_int v :: 32 word))"

section \<open>Visibility\<close>

record Element =
  visible :: "bool option"

definition isVisible :: "Element \<Rightarrow> bool" where
  \<comment> \<open>\<open>element.visible ?? true\<close>\<close>
  "isVisible element = (case visible element of None \<Rightarrow> True | Some v \<Rightarrow> v)"

section \<open>Box shorthand\<close>

record BoxValues =
  vtop :: number
  vright :: number
  vbottom :: number
  vleft :: number

record ShorthandOptions =
  ignoreZero :: "bool option"
  suffix :: "string option"

definition generateCSSShorthand :: "BoxValues \<Rightarrow> ShorthandOptions option \<Rightarrow> string option" where
  \<comment> \<open>The second parameter defaults to \<open>{}\<close>, its fields to \<open>true\<close> and \<open>"px"\<close>;
      \<open>None\<close> as result is \<open>undefined\<close>.\<close>
  "generateCSSShorthand values opts =
     (let options = (case opts of None \<Rightarrow> \<lparr>ignoreZero = None, suffix = None\<rparr> | Some o' \<Rightarrow> o');
          ignoreZero' = (case ignoreZero options of None \<Rightarrow> True | Some z \<Rightarrow> z);
          suffix' = (case suffix options of None \<Rightarrow> ''px'' | Some s \<Rightarrow> s);
          top = vtop values; right = vright values;
          bottom = vbottom values; left = vleft values
      in if ignoreZero' \<and> top = 0 \<and> right = 0 \<and> bottom = 0 \<and> left = 0 then None
         else if top = right \<and> right = bottom \<and> bottom = left
           then Some (Number_toString top @ suffix')
         else if right = left then
           (if top = bottom
              then Some (Number_toString top @ suffix' @ '' '' @ Number_toString right @ suffix')
            else Some (Number_toString top @ suffix' @ '' '' @ Number_toString right @ suffix' @
                       '' '' @ Number_toString bottom @ suffix'))
         else Some (Number_toString top @ suffix' @ '' '' @ Number_toString right @ suffix' @
                    '' '' @ Number_toString bottom @ suffix' @ '' '' @
                    Number_toString left @ suffix'))"

section \<open>Colours and paints\<close>

record RGBA =
  rgba_r :: number
  rgba_g :: number
  rgba_b :: number
  rgba_a :: number

record ColorValue =
  hex :: string
  cv_opacity :: number

definition convertColor :: "RGBA \<Rightarrow> number option \<Rightarrow> ColorValue" where
  \<comment> \<open>The parameter \<open>opacity\<close> defaults to 1 when the argument is \<open>undefined\<close>.\<close>
  "convertColor color opacity =
     (let opacity' = (case opacity of None \<Rightarrow> 1 | Some v \<Rightarrow> v);
          r = Math_round (rgba_r color * 255);
          g = Math_round (rgba_g color * 255);
          b = Math_round (rgba_b color * 255);
          a = of_int (Math_round (opacity' * rgba_a color * 100)) / 100;
          hex' = ''#'' @
            toUpperCase (drop 1 (int_toString 16 (shl32 1 24 + shl32 r 16 + shl32 g 8 + b)))
      in \<lparr>hex = hex', cv_opacity = a\<rparr>)"

definition formatRGBAColor :: "RGBA \<Rightarrow> number option \<Rightarrow> string" where
  "formatRGBAColor color opacity =
     (let opacity' = (case opacity of None \<Rightarrow> 1 | Some v \<Rightarrow> v);
          r = Math_round (rgba_r color * 255);
          g = Math_round (rgba_g color * 255);
          b = Math_round (rgba_b color * 255);
          a = of_int (Math_round (opacity' * rgba_a color * 100)) / 100
      in ''rgba('' @ int_toString 10 r @ '', '' @ int_toString 10 g @ '', '' @
         int_toString 10 b @ '', '' @ Number_toString a @ '')'')"

type_synonym Vector = "number \<times> number"

record ColorStop =
  position :: number
  stop_color :: RGBA

text \<open>
  A paint as \<open>parsePaint\<close> reads it: the discriminant \<open>type\<close> is a string, and each other
  field may be missing.
\<close>

record Paint =
  ptype :: string
  color :: "RGBA option"
  opacity :: "number option"
  imageRef :: "string option"
  scaleMode :: "string option"
  gradientHandlePositions :: "Vector list option"
  gradientStops :: "ColorStop list option"

record GradientStop =
  gs_position :: number
  gs_color :: ColorValue

datatype SimplifiedFill =
    FillImage "string option" "string option"
  | FillColor string
  | FillGradient string "Vector list option" "GradientStop list"

datatype js_error =
    UnknownPaintType string
  | TypeError

definition gradient_types :: "string list" where
  "gradient_types =
     [''GRADIENT_LINEAR'', ''GRADIENT_RADIAL'', ''GRADIENT_ANGULAR'', ''GRADIENT_DIAMOND'']"

definition parsePaint :: "Paint \<Rightarrow> js_error + SimplifiedFill" where
  \<comment> \<open>Reading a property of \<open>undefined\<close> (\<open>raw.color!.r\<close>, \<open>raw.gradientStops.map\<close>)
      raises a \<open>TypeError\<close>; the last branch is the \<open>throw\<close>.\<close>
  "parsePaint raw =
     (if ptype raw = ''IMAGE'' then Inr (FillImage (imageRef raw) (scaleMode raw))
      else if ptype raw = ''SOLID'' then
        (case color raw of
           None \<Rightarrow> Inl TypeError
         | Some c \<Rightarrow>
             (let cv = convertColor c (opacity raw)
              in if cv_opacity cv = 1 then Inr (FillColor (hex cv))
                 else Inr (FillColor (formatRGBAColor c (Some (cv_opacity cv))))))
      else if ptype raw \<in> set gradient_types then
        (case gradientStops raw of
           None \<Rightarrow> Inl TypeError
         | Some stops \<Rightarrow>
             Inr (FillGradient (ptype raw) (gradientHandlePositions raw)
                    (map (\<lambda>s. \<lparr>gs_position = position s,
                                 gs_color = convertColor (stop_color s) None\<rparr>) stops)))
      else Inl (UnknownPaintType (ptype raw)))"

section \<open>Generated identifiers\<close>

text \<open>
  \<open>Math.random\<close> is the only source of the token. The run's sequence of draws is a
  function from the number of the draw to its value, and the state is the number of
  draws made so far.
\<close>

type_synonym random_source = "nat \<Rightarrow> number"

definition Math_random :: "random_source \<Rightarrow> nat \<Rightarrow> number \<times> nat" where
  "Math_random rnd n = (rnd n, Suc n)"

definition chars :: string where
  "chars = ''ABCDEFGHIJKLMNOPQRSTUVWXYZ0123456789''"

definition char_at :: "string \<Rightarrow> int \<Rightarrow> string" where
  \<comment> \<open>\<open>s[i]\<close> appended to a string: out of range it is \<open>undefined\<close>, which \<open>+=\<close> spells out.\<close>
  "char_at s i = (if 0 \<le> i \<and> i < int (length s) then [s ! nat i] else ''undefined'')"

fun generateVarId_loop :: "random_source \<Rightarrow> nat \<Rightarrow> string \<Rightarrow> nat \<Rightarrow> string \<times> nat" where
  \<comment> \<open>The \<open>for\<close> loop, by the number of iterations left.\<close>
  "generateVarId_loop rnd 0 result n = (result, n)"
| "generateVarId_loop rnd (Suc k) result n =
     (let (v, n') = Math_random rnd n;
          randomIndex = Math_floor (v * of_nat (length chars))
      in generateVarId_loop rnd k (result @ char_at chars randomIndex) n')"

definition generateVarId :: "random_source \<Rightarrow> string option \<Rightarrow> nat \<Rightarrow> string \<times> nat" where
  \<comment> \<open>The parameter \<open>prefix\<close> defaults to \<open>"var"\<close>.\<close>
  "generateVarId rnd prefix n =
     (let prefix' = (case prefix of None \<Rightarrow> ''var'' | Some p \<Rightarrow> p);
          (result, n') = generateVarId_loop rnd 6 '''' n
      in (prefix' @ ''_'' @ result, n'))"

definition drawn_indices :: "random_source \<Rightarrow> nat \<Rightarrow> int list" where
  \<comment> \<open>The six indices a call starting at draw \<open>n\<close> computes.\<close>
  "drawn_indices rnd n = map (\<lambda>i. Math_floor (rnd (n + i) * 36)) [0..<6]"

definition draws_in_range :: "random_source \<Rightarrow> nat \<Rightarrow> bool" where
  \<comment> \<open>\<open>Math.random\<close> returns a value in \<open>[0, 1)\<close>.\<close>
  "draws_in_range rnd n \<longleftrightarrow> (\<forall>i \<in> set [0..<6]. 0 \<le> rnd (n + i) \<and> rnd (n + i) < 1)"

section \<open>The compactor\<close>

text \<open>
  The values \<open>removeEmptyKeys\<close> walks: primitives, arrays, and plain objects. An object is
  the list of its own enumerable properties in enumeration order, which is what
  \<open>for ... in\<close> with \<open>hasOwnProperty\<close>, \<open>Object.keys\<close> and a serialiser see; the keys of
  an object are pairwise distinct. The prototype of an object is not an own property
  and is not part of the value.
\<close>

datatype jsval =
    JUndefined
  | JNull
  | JBool bool
  | JNum number
  | JStr string
  | JArr "jsval list"
  | JObj "(string \<times> jsval) list"

definition Array_isArray :: "jsval \<Rightarrow> bool" where
  "Array_isArray v = (case v of JArr _ \<Rightarrow> True | _ \<Rightarrow> False)"

definition typeof_object :: "jsval \<Rightarrow> bool" where
  \<comment> \<open>\<open>typeof v === "object"\<close>, which holds of \<open>null\<close> too.\<close>
  "typeof_object v = (case v of JNull \<Rightarrow> True | JArr _ \<Rightarrow> True | JObj _ \<Rightarrow> True | _ \<Rightarrow> False)"

definition array_length :: "jsval \<Rightarrow> nat" where
  "array_length v = (case v of JArr items \<Rightarrow> length items | _ \<Rightarrow> 0)"

definition Object_keys :: "jsval \<Rightarrow> string list" where
  \<comment> \<open>The keys of an array are its indices; only their number is used.\<close>
  "Object_keys v =
     (case v of JObj props \<Rightarrow> map fst props
              | JArr items \<Rightarrow> map (\<lambda>i. int_toString 10 (int i)) [0..<length items]
              | _ \<Rightarrow> [])"

definition is_kept :: "jsval \<Rightarrow> bool" where
  \<comment> \<open>The condition under which the loop stores the cleaned value.\<close>
  "is_kept cleanedValue \<longleftrightarrow>
     cleanedValue \<noteq> JUndefined \<and>
     \<not> (Array_isArray cleanedValue \<and> array_length cleanedValue = 0) \<and>
     \<not> (typeof_object cleanedValue \<and> cleanedValue \<noteq> JNull \<and>
        length (Object_keys cleanedValue) = 0)"

fun assign_own :: "(string \<times> jsval) list \<Rightarrow> string \<Rightarrow> jsval \<Rightarrow> (string \<times> jsval) list" where
  \<comment> \<open>\<open>result[key] = value\<close> on an object that was created as \<open>{}\<close>. For the key
      \<open>__proto__\<close> the assignment reaches the accessor inherited from
      \<open>Object.prototype\<close>: it replaces the prototype when the value is an object or
      \<open>null\<close>, does nothing otherwise, and in no case adds an own property. Any other key
      is overwritten in place when the object has it and added at the end when not.\<close>
  "assign_own [] key value = (if key = ''__proto__'' then [] else [(key, value)])"
| "assign_own ((k, v) # result) key value =
     (if key = ''__proto__'' then (k, v) # result
      else if k = key then (k, value) # result
      else (k, v) # assign_own result key value)"

function removeEmptyKeys :: "jsval \<Rightarrow> jsval"
  and removeEmptyKeys_items :: "jsval list \<Rightarrow> jsval list"
  and removeEmptyKeys_props ::
    "(string \<times> jsval) list \<Rightarrow> (string \<times> jsval) list \<Rightarrow> (string \<times> jsval) list"
where
  "removeEmptyKeys input =
     (if \<not> typeof_object input \<or> input = JNull then input
      else case input of
             JArr items \<Rightarrow> JArr (removeEmptyKeys_items items)
           | JObj props \<Rightarrow> JObj (removeEmptyKeys_props props [])
           | _ \<Rightarrow> input)"
| "removeEmptyKeys_items [] = []"
| "removeEmptyKeys_items (item # items) = removeEmptyKeys item # removeEmptyKeys_items items"
| "removeEmptyKeys_props [] result = result"
| "removeEmptyKeys_props ((key, value) # rest) result =
     (let cleanedValue = removeEmptyKeys value
      in if is_kept cleanedValue
         then removeEmptyKeys_props rest (assign_own result key cleanedValue)
         else removeEmptyKeys_props rest result)"
  by pat_completeness auto
termination
  by (relation "measure (\<lambda>x. case x of
          Inl v \<Rightarrow> size v
        | Inr (Inl items) \<Rightarrow> size_list size items
        | Inr (Inr (props, result)) \<Rightarrow> size_list (size_prod (\<lambda>_. 0) size) props)") auto

definition is_primitive :: "jsval \<Rightarrow> bool" where
  \<comment> \<open>The primitive values other than \<open>undefined\<close>.\<close>
  "is_primitive v = (case v of JNull \<Rightarrow> True | JBool _ \<Rightarrow> True | JNum _ \<Rightarrow> True
                             | JStr _ \<Rightarrow> True | _ \<Rightarrow> False)"

section \<open>Hexadecimal colours\<close>

definition is_whitespace :: "char \<Rightarrow> bool" where
  "is_whitespace c \<longleftrightarrow> (of_char c :: nat) \<in> {9, 10, 11, 12, 13, 32}"

fun index_of :: "char \<Rightarrow> string \<Rightarrow> nat option" where
  "index_of c [] = None"
| "index_of c (x # xs) = (if x = c then Some 0 else map_option Suc (index_of c xs))"

definition digit_value :: "char \<Rightarrow> nat option" where
  \<comment> \<open>The value of a digit in either case, up to radix 36.\<close>
  "digit_value c =
     (case index_of c ''0123456789abcdefghijklmnopqrstuvwxyz'' of
        Some d \<Rightarrow> Some d
      | None \<Rightarrow> map_option (\<lambda>i. i + 10) (index_of c ''ABCDEFGHIJKLMNOPQRSTUVWXYZ''))"

definition is_digit :: "nat \<Rightarrow> char \<Rightarrow> bool" where
  "is_digit radix c = (case digit_value c of None \<Rightarrow> False | Some d \<Rightarrow> d < radix)"

definition parseInt :: "string \<Rightarrow> nat \<Rightarrow> int option" where
  \<comment> \<open>\<open>parseInt(s, radix)\<close>: leading white space, a sign, for radix 16 a prefix \<open>0x\<close>,
      then the longest run of digits; with no digit the result is \<open>NaN\<close>, here \<open>None\<close>.\<close>
  "parseInt s radix =
     (let s1 = dropWhile is_whitespace s;
          sign = (if take 1 s1 = ''-'' then - 1 else 1);
          s2 = (if take 1 s1 = ''-'' \<or> take 1 s1 = ''+'' then drop 1 s1 else s1);
          s3 = (if radix = 16 \<and> (take 2 s2 = ''0x'' \<or> take 2 s2 = ''0X'') then drop 2 s2 else s2);
          ds = takeWhile (is_digit radix) s3
      in if ds = [] then None
         else Some (sign * int (foldl (\<lambda>acc c. acc * radix + the (digit_value c)) 0 ds)))"

definition channel_toString :: "int option \<Rightarrow> string" where
  "channel_toString v = (case v of None \<Rightarrow> ''NaN'' | Some i \<Rightarrow> int_toString 10 i)"

definition substring :: "string \<Rightarrow> nat \<Rightarrow> nat \<Rightarrow> string" where
  "substring s i j = take (j - i) (drop i s)"

text \<open>
  The opacity of \<open>hexToRgba\<close> goes through \<open>Math.max\<close> and \<open>Math.min\<close> only, which
  return \<open>NaN\<close> when an argument is \<open>NaN\<close>; here a number is a real number, an infinity
  or \<open>NaN\<close>.
\<close>

datatype js_number = NaN | NegInfinity | Finite real | PosInfinity

fun js_less_eq :: "js_number \<Rightarrow> js_number \<Rightarrow> bool" where
  \<comment> \<open>The order of the numbers other than \<open>NaN\<close>.\<close>
  "js_less_eq NaN _ = False"
| "js_less_eq _ NaN = False"
| "js_less_eq NegInfinity _ = True"
| "js_less_eq _ PosInfinity = True"
| "js_less_eq (Finite v) (Finite w) = (v \<le> w)"
| "js_less_eq _ _ = False"

definition Math_max :: "js_number \<Rightarrow> js_number \<Rightarrow> js_number" where
  "Math_max v w = (if v = NaN \<or> w = NaN then NaN else if js_less_eq v w then w else v)"

definition Math_min :: "js_number \<Rightarrow> js_number \<Rightarrow> js_number" where
  "Math_min v w = (if v = NaN \<or> w = NaN then NaN else if js_less_eq v w then v else w)"

definition js_number_toString :: "js_number \<Rightarrow> string" where
  "js_number_toString v =
     (case v of NaN \<Rightarrow> ''NaN'' | NegInfinity \<Rightarrow> ''-Infinity'' | PosInfinity \<Rightarrow> ''Infinity''
              | Finite w \<Rightarrow> Number_toString w)"

definition hexToRgba :: "string \<Rightarrow> js_number option \<Rightarrow> string" where
  \<comment> \<open>The parameter \<open>opacity\<close> defaults to 1; \<open>replace\<close> with a string pattern removes
      the first \<open>#\<close> only.\<close>
  "hexToRgba hex0 opacity0 =
     (let opacity' = (case opacity0 of None \<Rightarrow> Finite 1 | Some v \<Rightarrow> v);
          hex1 = remove1 (CHR ''#'') hex0;
          hex2 = (if length hex1 = 3
                  then [hex1 ! 0, hex1 ! 0, hex1 ! 1, hex1 ! 1, hex1 ! 2, hex1 ! 2] else hex1);
          r = parseInt (substring hex2 0 2) 16;
          g = parseInt (substring hex2 2 4) 16;
          b = parseInt (substring hex2 4 6) 16;
          validOpacity = Math_min (Math_max opacity' (Finite 0)) (Finite 1)
      in ''rgba('' @ channel_toString r @ '', '' @ channel_toString g @ '', '' @
         channel_toString b @ '', '' @ js_number_toString validOpacity @ '')'')"

definition rgba_alpha_text :: "string \<Rightarrow> string" where
  \<comment> \<open>Reads the last component back out of a string \<open>rgba(r, g, b, a)\<close>.\<close>
  "rgba_alpha_text s = rev (takeWhile (\<lambda>c. c \<noteq> CHR '' '') (drop 1 (rev s)))"

section \<open>The conversion around \<open>parsePaint\<close>\<close>


section \<open>Notions of the specification and concrete inputs\<close>

definition hex_byte :: "int \<Rightarrow> string" where
  \<comment> \<open>A channel value as two upper-case hexadecimal digits, zero-padded.\<close>
  "hex_byte v = [''0123456789ABCDEF'' ! nat (v div 16), ''0123456789ABCDEF'' ! nat (v mod 16)]"

definition colliding_draws :: random_source where
  \<comment> \<open>Twelve pairwise different draws, the seventh to twelfth falling into the same
      thirty-sixths of the unit interval as the first to sixth.\<close>
  "colliding_draws i = real (i mod 6) / 10 + real (i div 6) / 1000"


definition half_transparent_red :: Paint where
  "half_transparent_red =
     \<lparr>ptype = ''SOLID'',
      color = Some \<lparr>rgba_r = 1, rgba_g = 0, rgba_b = 0, rgba_a = 1 / 2\<rparr>,
      opacity = Some 1, imageRef = None, scaleMode = None,
      gradientHandlePositions = None, gradientStops = None\<rparr>"

section \<open>Evaluation lemmas\<close>

declare nat_toString.simps [simp del]

lemma nat_toString_0: "nat_toString radix 0 = [digit_char 0]"
  by (subst nat_toString.simps) auto

lemma nat_toString_1: "nat_toString radix (Suc 0) = [digit_char 1]"
  by (subst nat_toString.simps) auto

lemma nat_toString_numeral:
  "nat_toString radix (numeral k) =
     (if radix < 2 \<or> numeral k < radix then [digit_char (numeral k)]
      else nat_toString radix (numeral k div radix) @ [digit_char (numeral k mod radix)])"
  by (rule nat_toString.simps)

lemmas nat_toString_eval = nat_toString_0 nat_toString_1 nat_toString_numeral

lemma frac_digits_numeral:
  "frac_digits (numeral k) f =
     (if f = 0 then []
      else digit_char (nat \<lfloor>f * 10\<rfloor>) #
           frac_digits (pred_numeral k) (f * 10 - of_int \<lfloor>f * 10\<rfloor>))"
  by (simp add: numeral_eq_Suc)

lemmas number_eval = Number_toString_def frac_digits_numeral nat_toString_eval digit_char_def

lemma Number_toString_examples:
  "Number_toString 10 = ''10''" "Number_toString 20 = ''20''" "Number_toString 30 = ''30''"
  "Number_toString 40 = ''40''" "Number_toString (1 / 2) = ''0.5''"
  "Number_toString (1 / 4) = ''0.25''" "Number_toString 0 = ''0''" "Number_toString 1 = ''1''"
  by (simp_all add: number_eval)

section \<open>Visibility\<close>

text \<open>
  Claim C8. \<open>isVisible\<close> returns the field \<open>visible\<close> when the element has it, true or
  false, and returns true when the field is absent.
\<close>

theorem isVisible_contract:
  "(visible e = Some v \<longrightarrow> isVisible e = v) \<and> (visible e = None \<longrightarrow> isVisible e = True)"
  by (simp add: isVisible_def)

theorem isVisible_contract_witness:
  "isVisible \<lparr>visible = Some False\<rparr> = False \<and> isVisible \<lparr>visible = Some True\<rparr> = True
   \<and> isVisible \<lparr>visible = None\<rparr> = True"
  using isVisible_contract [of "\<lparr>visible = Some False\<rparr>" False]
    isVisible_contract [of "\<lparr>visible = Some True\<rparr>" True]
    isVisible_contract [of "\<lparr>visible = None\<rparr>"]
  by simp

section \<open>Box shorthand\<close>

lemma if_chain:
  "(if A then x else if B then y else if C then (if D then z else w) else v) =
   (if A then x else if B then y else if C \<and> D then z else if C then w else v)"
  by simp

lemma generateCSSShorthand_unfold:
  "generateCSSShorthand \<lparr>vtop = t, vright = r, vbottom = b, vleft = l\<rparr> opts =
     (let iz = (case opts of None \<Rightarrow> True
                | Some p \<Rightarrow> (case ignoreZero p of None \<Rightarrow> True | Some z \<Rightarrow> z));
          sfx = (case opts of None \<Rightarrow> ''px''
                 | Some p \<Rightarrow> (case suffix p of None \<Rightarrow> ''px'' | Some s \<Rightarrow> s));
          str = (\<lambda>v. Number_toString v @ sfx)
      in if iz \<and> t = 0 \<and> r = 0 \<and> b = 0 \<and> l = 0 then None
         else if t = r \<and> r = b \<and> b = l then Some (str t)
         else if r = l \<and> t = b then Some (str t @ '' '' @ str r)
         else if r = l then Some (str t @ '' '' @ str r @ '' '' @ str b)
         else Some (str t @ '' '' @ str r @ '' '' @ str b @ '' '' @ str l))"
proof (cases opts)
  case None
  show ?thesis
    unfolding generateCSSShorthand_def Let_def None option.case
      BoxValues.select_convs ShorthandOptions.select_convs
    by (simp only: if_chain append_assoc)
next
  case (Some p)
  show ?thesis
    unfolding generateCSSShorthand_def Let_def Some option.case BoxValues.select_convs
    by (simp only: if_chain append_assoc)
qed

lemma generateCSSShorthand_four:
  assumes "r \<noteq> l"
  shows "generateCSSShorthand \<lparr>vtop = t, vright = r, vbottom = b, vleft = l\<rparr> None =
          Some (Number_toString t @ ''px '' @ Number_toString r @ ''px '' @
                Number_toString b @ ''px '' @ Number_toString l @ ''px'')"
proof -
  have n1: "\<not> (True \<and> t = 0 \<and> r = 0 \<and> b = 0 \<and> l = 0)"
    using assms by blast
  have n2: "\<not> (t = r \<and> r = b \<and> b = l)"
    using assms by blast
  have n3: "(r = l) = False"
    using assms by blast
  show ?thesis
    unfolding generateCSSShorthand_def Let_def option.case
      BoxValues.select_convs ShorthandOptions.select_convs
    by (simp only: n1 n2 n3 if_False append_assoc append_Cons append_Nil)
qed

text \<open>
  Claim C4. \<open>generateCSSShorthand\<close> follows this priority: with \<open>ignoreZero\<close> (default
  true) and four zeros the result is absent; else four equal values give one value; else
  \<open>right = left\<close> and \<open>top = bottom\<close> give two values (top, right); else \<open>right = left\<close>
  gives three (top, right, bottom); else four in the order top, right, bottom, left. Every
  value carries the suffix (default \<open>px\<close>) and the values are separated by one space. In
  particular \<open>top = bottom\<close> with \<open>right \<noteq> left\<close> yields the four-value form.
\<close>

theorem generateCSSShorthand_priority:
  "generateCSSShorthand \<lparr>vtop = t, vright = r, vbottom = b, vleft = l\<rparr> opts =
     (let iz = (case opts of None \<Rightarrow> True
                | Some p \<Rightarrow> (case ignoreZero p of None \<Rightarrow> True | Some z \<Rightarrow> z));
          sfx = (case opts of None \<Rightarrow> ''px''
                 | Some p \<Rightarrow> (case suffix p of None \<Rightarrow> ''px'' | Some s \<Rightarrow> s));
          str = (\<lambda>v. Number_toString v @ sfx)
      in if iz \<and> t = 0 \<and> r = 0 \<and> b = 0 \<and> l = 0 then None
         else if t = r \<and> r = b \<and> b = l then Some (str t)
         else if r = l \<and> t = b then Some (str t @ '' '' @ str r)
         else if r = l then Some (str t @ '' '' @ str r @ '' '' @ str b)
         else Some (str t @ '' '' @ str r @ '' '' @ str b @ '' '' @ str l))
   \<and> (t = b \<and> r \<noteq> l \<longrightarrow>
        generateCSSShorthand \<lparr>vtop = t, vright = r, vbottom = b, vleft = l\<rparr> None =
          Some (Number_toString t @ ''px '' @ Number_toString r @ ''px '' @
                Number_toString b @ ''px '' @ Number_toString l @ ''px''))"
  using generateCSSShorthand_unfold [of t r b l opts] generateCSSShorthand_four [of r l t b]
  by blast

theorem generateCSSShorthand_priority_witness:
  "generateCSSShorthand \<lparr>vtop = 10, vright = 20, vbottom = 10, vleft = 30\<rparr> None =
     Some ''10px 20px 10px 30px''
   \<and> generateCSSShorthand \<lparr>vtop = 10, vright = 10, vbottom = 10, vleft = 10\<rparr> None =
     Some ''10px''
   \<and> generateCSSShorthand \<lparr>vtop = 10, vright = 20, vbottom = 10, vleft = 20\<rparr> None =
     Some ''10px 20px''
   \<and> generateCSSShorthand \<lparr>vtop = 10, vright = 20, vbottom = 30, vleft = 20\<rparr> None =
     Some ''10px 20px 30px''
   \<and> generateCSSShorthand \<lparr>vtop = 10, vright = 20, vbottom = 30, vleft = 40\<rparr> None =
     Some ''10px 20px 30px 40px''
   \<and> generateCSSShorthand \<lparr>vtop = 0, vright = 0, vbottom = 0, vleft = 0\<rparr> None = None
   \<and> generateCSSShorthand \<lparr>vtop = 0, vright = 0, vbottom = 0, vleft = 0\<rparr>
        (Some \<lparr>ignoreZero = Some False, suffix = Some ''%''\<rparr>) = Some ''0%''"
proof -
  have four: "generateCSSShorthand \<lparr>vtop = 10, vright = 20, vbottom = 10, vleft = 30\<rparr> None =
      Some ''10px 20px 10px 30px''"
    using generateCSSShorthand_priority [of 10 20 10 30 None, THEN conjunct2]
    by (simp add: Number_toString_examples)
  have one: "generateCSSShorthand \<lparr>vtop = 10, vright = 10, vbottom = 10, vleft = 10\<rparr> None =
      Some ''10px''"
    using generateCSSShorthand_priority [of 10 10 10 10 None, THEN conjunct1]
    by (simp add: Number_toString_examples)
  have two: "generateCSSShorthand \<lparr>vtop = 10, vright = 20, vbottom = 10, vleft = 20\<rparr> None =
      Some ''10px 20px''"
    using generateCSSShorthand_priority [of 10 20 10 20 None, THEN conjunct1]
    by (simp add: Number_toString_examples)
  have three: "generateCSSShorthand \<lparr>vtop = 10, vright = 20, vbottom = 30, vleft = 20\<rparr> None =
      Some ''10px 20px 30px''"
    using generateCSSShorthand_priority [of 10 20 30 20 None, THEN conjunct1]
    by (simp add: Number_toString_examples)
  have four': "generateCSSShorthand \<lparr>vtop = 10, vright = 20, vbottom = 30, vleft = 40\<rparr> None =
      Some ''10px 20px 30px 40px''"
    using generateCSSShorthand_priority [of 10 20 30 40 None, THEN conjunct1]
    by (simp add: Number_toString_examples)
  have zero: "generateCSSShorthand \<lparr>vtop = 0, vright = 0, vbottom = 0, vleft = 0\<rparr> None = None"
    using generateCSSShorthand_priority [of 0 0 0 0 None, THEN conjunct1]
    by simp
  have kept: "generateCSSShorthand \<lparr>vtop = 0, vright = 0, vbottom = 0, vleft = 0\<rparr>
        (Some \<lparr>ignoreZero = Some False, suffix = Some ''%''\<rparr>) = Some ''0%''"
    using generateCSSShorthand_priority
      [of 0 0 0 0 "Some \<lparr>ignoreZero = Some False, suffix = Some ''%''\<rparr>", THEN conjunct1]
    by (simp add: Number_toString_examples)
  from four one two three four' zero kept show ?thesis
    by (simp only: simp_thms)
qed

section \<open>The compactor\<close>

lemmas jsval_eval = is_kept_def Array_isArray_def typeof_object_def array_length_def
  Object_keys_def

lemma removeEmptyKeys_simps:
  "removeEmptyKeys JUndefined = JUndefined"
  "removeEmptyKeys JNull = JNull"
  "removeEmptyKeys (JBool f) = JBool f"
  "removeEmptyKeys (JNum n) = JNum n"
  "removeEmptyKeys (JStr s) = JStr s"
  "removeEmptyKeys (JArr items) = JArr (removeEmptyKeys_items items)"
  "removeEmptyKeys (JObj props) = JObj (removeEmptyKeys_props props [])"
  by (simp_all add: typeof_object_def)

lemma is_kept_iff:
  "is_kept v \<longleftrightarrow> \<not> (v = JUndefined \<or> v = JArr [] \<or> v = JObj [])"
  by (cases v) (auto simp add: jsval_eval)

lemma removeEmptyKeys_items_map: "removeEmptyKeys_items items = map removeEmptyKeys items"
  by (induction items) (simp_all del: removeEmptyKeys.simps)

lemma assign_own_proto: "assign_own result ''__proto__'' v = result"
  by (cases result) auto

lemma assign_own_fresh:
  assumes "key \<noteq> ''__proto__''" "key \<notin> fst ` set result"
  shows "assign_own result key v = result @ [(key, v)]"
  using assms by (induction result) auto

lemma removeEmptyKeys_props_filter:
  assumes "distinct (map fst result @ map fst props)"
  shows "removeEmptyKeys_props props result =
     result @ filter (\<lambda>(k, v). k \<noteq> ''__proto__'' \<and> \<not> (v = JUndefined \<or> v = JArr [] \<or> v = JObj []))
       (map (\<lambda>(k, v). (k, removeEmptyKeys v)) props)"
  using assms
proof (induction props arbitrary: result)
  case Nil
  show ?case by simp
next
  case (Cons p props)
  obtain k v where p: "p = (k, v)" by (cases p)
  show ?case
  proof (cases "is_kept (removeEmptyKeys v) \<and> k \<noteq> ''__proto__''")
    case True
    with Cons.prems have fresh: "k \<noteq> ''__proto__''" "k \<notin> fst ` set result"
      by (auto simp add: p)
    have "distinct (map fst (result @ [(k, removeEmptyKeys v)]) @ map fst props)"
      using Cons.prems by (auto simp add: p)
    then have "removeEmptyKeys_props props (result @ [(k, removeEmptyKeys v)]) =
        (result @ [(k, removeEmptyKeys v)]) @
        filter (\<lambda>(k, v). k \<noteq> ''__proto__'' \<and> \<not> (v = JUndefined \<or> v = JArr [] \<or> v = JObj []))
          (map (\<lambda>(k, v). (k, removeEmptyKeys v)) props)"
      by (rule Cons.IH)
    with True fresh show ?thesis
      by (simp add: p Let_def is_kept_iff assign_own_fresh del: removeEmptyKeys.simps)
  next
    case False
    have "distinct (map fst result @ map fst props)"
      using Cons.prems by (auto simp add: p)
    then have "removeEmptyKeys_props props result =
        result @
        filter (\<lambda>(k, v). k \<noteq> ''__proto__'' \<and> \<not> (v = JUndefined \<or> v = JArr [] \<or> v = JObj []))
          (map (\<lambda>(k, v). (k, removeEmptyKeys v)) props)"
      by (rule Cons.IH)
    with False show ?thesis
      by (auto simp add: p Let_def is_kept_iff assign_own_proto simp del: removeEmptyKeys.simps)
  qed
qed

lemma removeEmptyKeys_object:
  assumes "distinct (map fst props)"
  shows "removeEmptyKeys (JObj props) =
     JObj (filter (\<lambda>(k, v). k \<noteq> ''__proto__'' \<and> \<not> (v = JUndefined \<or> v = JArr [] \<or> v = JObj []))
            (map (\<lambda>(k, v). (k, removeEmptyKeys v)) props))"
  using removeEmptyKeys_props_filter [of "[]" props] assms
  by (simp add: removeEmptyKeys_simps del: removeEmptyKeys.simps)

lemma is_primitive_fixed: "is_primitive v \<Longrightarrow> removeEmptyKeys v = v \<and> is_kept v"
  by (cases v) (simp_all add: is_primitive_def jsval_eval)

text \<open>
  Claim C6 says that a primitive value is never dropped and that a key is dropped exactly
  when its cleaned value is \<open>undefined\<close>, an empty array or an empty object. The code
  stores a kept value by \<open>result[key] = cleanedValue\<close>, and for the own key \<open>__proto__\<close>
  that assignment adds no property: the object parsed from
  \<open>{"__proto__": false, "c": 0}\<close> comes back as \<open>{"c": 0}\<close>, the primitive \<open>false\<close>
  dropped. The example of the specification has no such key and comes back as stated.
\<close>

theorem removeEmptyKeys_drops_proto_key:
  "removeEmptyKeys (JObj [(''__proto__'', JBool False), (''c'', JNum 0)]) = JObj [(''c'', JNum 0)]
   \<and> is_primitive (JBool False)
   \<and> removeEmptyKeys (JObj [(''a'', JArr []), (''b'', JObj []), (''c'', JNum 0),
         (''d'', JBool False), (''e'', JObj [(''f'', JNum 1)])]) =
       JObj [(''c'', JNum 0), (''d'', JBool False), (''e'', JObj [(''f'', JNum 1)])]"
  by (simp add: removeEmptyKeys_simps jsval_eval Let_def is_primitive_def
      del: removeEmptyKeys.simps)

text \<open>
  Claim C9. \<open>removeEmptyKeys\<close> never removes an array element: the result for an
  array is an array of the same length whose elements are the cleaned elements, so an
  empty object or an empty array that is an element of an array survives.
\<close>

theorem removeEmptyKeys_arrays_keep_length:
  "\<exists>cleaned. removeEmptyKeys (JArr items) = JArr cleaned \<and> length cleaned = length items
     \<and> (\<forall>i < length items. cleaned ! i = removeEmptyKeys (items ! i)
          \<and> (items ! i = JObj [] \<or> items ! i = JArr [] \<longrightarrow> cleaned ! i = items ! i))"
  by (auto simp add: removeEmptyKeys_simps removeEmptyKeys_items_map simp del: removeEmptyKeys.simps)

theorem removeEmptyKeys_arrays_keep_length_witness:
  "removeEmptyKeys (JArr [JObj [], JArr [], JObj [(''a'', JArr [])], JUndefined]) =
     JArr [JObj [], JArr [], JObj [], JUndefined]"
  using removeEmptyKeys_arrays_keep_length [of "[JObj [], JArr [], JObj [(''a'', JArr [])], JUndefined]"]
  by (simp add: removeEmptyKeys_simps jsval_eval Let_def del: removeEmptyKeys.simps)

section \<open>Colours\<close>

lemma shl32_small:
  assumes "0 \<le> v" "v < 256"
  shows "shl32 v 16 = v * 65536" and "shl32 v 8 = v * 256"
proof -
  have "shl32 v 16 = sint (word_of_int (v * 65536) :: 32 word)"
    by (simp add: shl32_def push_bit_eq_mult)
  also have "\<dots> = signed_take_bit 31 (v * 65536)"
    by (subst sint_sbintrunc') simp
  also have "\<dots> = v * 65536"
    using assms by (intro signed_take_bit_int_eq_self) simp_all
  finally show "shl32 v 16 = v * 65536" .
  have "shl32 v 8 = sint (word_of_int (v * 256) :: 32 word)"
    by (simp add: shl32_def push_bit_eq_mult)
  also have "\<dots> = signed_take_bit 31 (v * 256)"
    by (subst sint_sbintrunc') simp
  also have "\<dots> = v * 256"
    using assms by (intro signed_take_bit_int_eq_self) simp_all
  finally show "shl32 v 8 = v * 256" .
qed

lemma shl32_one: "shl32 1 24 = 16777216"
  by (simp add: shl32_def)

lemma Math_round_channel:
  assumes "0 \<le> x" "x \<le> 1"
  shows "0 \<le> Math_round (x * 255) \<and> Math_round (x * 255) < 256"
proof -
  have "0 \<le> x * 255 + 1 / 2" using assms by simp
  then have lo: "0 \<le> Math_round (x * 255)" by (simp add: Math_round_def)
  have "x * 255 + 1 / 2 < 256" using assms by simp
  then have hi: "Math_round (x * 255) < 256" by (simp add: Math_round_def floor_less_iff)
  from lo hi show ?thesis by simp
qed

lemma nat_toString_step:
  assumes "0 < n" "d < 16"
  shows "nat_toString 16 (n * 16 + d) = nat_toString 16 n @ [digit_char d]"
proof -
  have "\<not> (16 < (2::nat) \<or> n * 16 + d < 16)" using assms by simp
  then show ?thesis
    using assms by (subst nat_toString.simps) simp
qed

lemma nat_toString_digits:
  assumes "0 < n" "\<forall>d \<in> set ds. d < 16"
  shows "nat_toString 16 (foldl (\<lambda>acc d. acc * 16 + d) n ds) = nat_toString 16 n @ map digit_char ds"
  using assms
proof (induction ds arbitrary: n)
  case Nil
  show ?case by simp
next
  case (Cons d ds)
  have "0 < n * 16 + d" using Cons.prems by simp
  then have "nat_toString 16 (foldl (\<lambda>acc d. acc * 16 + d) (n * 16 + d) ds) =
      nat_toString 16 (n * 16 + d) @ map digit_char ds"
    using Cons.IH Cons.prems by simp
  then show ?case
    using Cons.prems by (simp add: nat_toString_step)
qed

lemma upper_digit:
  assumes "d < 16"
  shows "toUpperCase_char (digit_char d) = ''0123456789ABCDEF'' ! d"
proof -
  have "\<forall>d \<in> set [0..<16]. toUpperCase_char (digit_char d) = ''0123456789ABCDEF'' ! d"
    by (simp add: upt_rec digit_char_def toUpperCase_char_def)
  with assms show ?thesis
    by simp
qed

lemma hex_of_channels:
  fixes r g b :: nat
  assumes "r < 256" "g < 256" "b < 256"
  shows "toUpperCase (drop 1 (nat_toString 16 (16777216 + r * 65536 + g * 256 + b))) =
         hex_byte (int r) @ hex_byte (int g) @ hex_byte (int b)"
proof -
  let ?ds = "[r div 16, r mod 16, g div 16, g mod 16, b div 16, b mod 16]"
  have split: "r = r div 16 * 16 + r mod 16" "g = g div 16 * 16 + g mod 16"
    "b = b div 16 * 16 + b mod 16"
    by simp_all
  have "foldl (\<lambda>acc d. acc * 16 + d) 1 ?ds =
      16777216 + (r div 16 * 16 + r mod 16) * 65536 + (g div 16 * 16 + g mod 16) * 256
        + (b div 16 * 16 + b mod 16)"
    by (simp add: algebra_simps)
  also have "\<dots> = 16777216 + r * 65536 + g * 256 + b"
    by simp
  finally have sum: "16777216 + r * 65536 + g * 256 + b = foldl (\<lambda>acc d. acc * 16 + d) 1 ?ds"
    by simp
  have small: "\<forall>d \<in> set ?ds. d < 16"
    using assms by (simp add: less_mult_imp_div_less)
  have "nat_toString 16 (foldl (\<lambda>acc d. acc * 16 + d) 1 ?ds) =
      nat_toString 16 1 @ map digit_char ?ds"
    by (rule nat_toString_digits) (use small in simp_all)
  then have "drop 1 (nat_toString 16 (16777216 + r * 65536 + g * 256 + b)) = map digit_char ?ds"
    unfolding sum by (simp add: nat_toString_1)
  moreover have "map toUpperCase_char (map digit_char ?ds) = map ((!) ''0123456789ABCDEF'') ?ds"
    using small by (simp add: upper_digit)
  moreover have "nat (int r div 16) = r div 16" "nat (int r mod 16) = r mod 16"
    "nat (int g div 16) = g div 16" "nat (int g mod 16) = g mod 16"
    "nat (int b div 16) = b div 16" "nat (int b mod 16) = b mod 16"
    by (simp_all add: nat_div_distrib nat_mod_distrib)
  ultimately show ?thesis
    by (simp add: toUpperCase_def hex_byte_def)
qed

lemma convertColor_channels:
  assumes "0 \<le> rgba_r c" "rgba_r c \<le> 1" "0 \<le> rgba_g c" "rgba_g c \<le> 1"
    "0 \<le> rgba_b c" "rgba_b c \<le> 1"
  shows "convertColor c opac =
     \<lparr>hex = ''#'' @ hex_byte (Math_round (rgba_r c * 255)) @
              hex_byte (Math_round (rgba_g c * 255)) @ hex_byte (Math_round (rgba_b c * 255)),
      cv_opacity =
        of_int (Math_round ((case opac of None \<Rightarrow> 1 | Some v \<Rightarrow> v) * rgba_a c * 100)) / 100\<rparr>"
proof -
  define r g b where "r = Math_round (rgba_r c * 255)" and "g = Math_round (rgba_g c * 255)"
    and "b = Math_round (rgba_b c * 255)"
  have r: "0 \<le> r" "r < 256" and g: "0 \<le> g" "g < 256" and b: "0 \<le> b" "b < 256"
    using assms Math_round_channel unfolding r_def g_def b_def by blast+
  have "shl32 1 24 + shl32 r 16 + shl32 g 8 + b =
      int (16777216 + nat r * 65536 + nat g * 256 + nat b)"
    using r g b by (simp add: shl32_one shl32_small)
  then have "int_toString 16 (shl32 1 24 + shl32 r 16 + shl32 g 8 + b) =
      nat_toString 16 (16777216 + nat r * 65536 + nat g * 256 + nat b)"
    by (simp only: int_toString_def nat_int) simp
  moreover have "toUpperCase (drop 1 (nat_toString 16 (16777216 + nat r * 65536 + nat g * 256 + nat b)))
      = hex_byte (int (nat r)) @ hex_byte (int (nat g)) @ hex_byte (int (nat b))"
    using r g b by (intro hex_of_channels) simp_all
  ultimately have "toUpperCase (drop 1 (int_toString 16 (shl32 1 24 + shl32 r 16 + shl32 g 8 + b)))
      = hex_byte r @ hex_byte g @ hex_byte b"
    using r g b by simp
  then show ?thesis
    unfolding convertColor_def Let_def r_def g_def b_def by simp
qed

lemma hex_byte_shape:
  assumes "0 \<le> v" "v < 256"
  shows "length (hex_byte v) = 2" and "set (hex_byte v) \<subseteq> set ''0123456789ABCDEF''"
proof -
  show "length (hex_byte v) = 2"
    by (simp add: hex_byte_def)
  have "nat (v div 16) < length ''0123456789ABCDEF''"
    using assms by simp
  then have hi: "''0123456789ABCDEF'' ! nat (v div 16) \<in> set ''0123456789ABCDEF''"
    by (rule nth_mem)
  have "nat (v mod 16) < length ''0123456789ABCDEF''"
    using assms by simp
  then have lo: "''0123456789ABCDEF'' ! nat (v mod 16) \<in> set ''0123456789ABCDEF''"
    by (rule nth_mem)
  from hi lo show "set (hex_byte v) \<subseteq> set ''0123456789ABCDEF''"
    unfolding hex_byte_def by (simp only: list.set insert_subset empty_subsetI simp_thms)
qed

lemma hex_byte_examples:
  "hex_byte 255 = ''FF''" "hex_byte 0 = ''00''" "hex_byte 128 = ''80''" "hex_byte 51 = ''33''"
  by (simp_all add: hex_byte_def)

text \<open>
  Claim C5. For a colour with channels in \<open>[0, 1]\<close> and any outer opacity (default 1),
  \<open>convertColor\<close> returns the hex string and the opacity: each of \<open>r\<close>, \<open>g\<close>, \<open>b\<close> is
  \<open>round(channel * 255)\<close> on its own, the opacity is \<open>round(o * alpha * 100) / 100\<close>, and
  the hex string is \<open>#\<close> and six upper-case hexadecimal digits, two per channel,
  zero-padded. Pure red with alpha 1 and opacity 1 gives \<open>#FF0000\<close> and opacity 1.
\<close>

theorem convertColor_spec:
  assumes "0 \<le> rgba_r c" "rgba_r c \<le> 1" "0 \<le> rgba_g c" "rgba_g c \<le> 1"
    "0 \<le> rgba_b c" "rgba_b c \<le> 1"
  shows "convertColor c opac =
     \<lparr>hex = ''#'' @ hex_byte (Math_round (rgba_r c * 255)) @
              hex_byte (Math_round (rgba_g c * 255)) @ hex_byte (Math_round (rgba_b c * 255)),
      cv_opacity =
        of_int (Math_round ((case opac of None \<Rightarrow> 1 | Some v \<Rightarrow> v) * rgba_a c * 100)) / 100\<rparr>
   \<and> length (hex (convertColor c opac)) = 7
   \<and> take 1 (hex (convertColor c opac)) = ''#''
   \<and> set (drop 1 (hex (convertColor c opac))) \<subseteq> set ''0123456789ABCDEF''
   \<and> convertColor \<lparr>rgba_r = 1, rgba_g = 0, rgba_b = 0, rgba_a = 1\<rparr> (Some 1) =
       \<lparr>hex = ''#FF0000'', cv_opacity = 1\<rparr>"
proof -
  note eq = convertColor_channels [OF assms, of opac]
  have r: "0 \<le> Math_round (rgba_r c * 255)" "Math_round (rgba_r c * 255) < 256"
    and g: "0 \<le> Math_round (rgba_g c * 255)" "Math_round (rgba_g c * 255) < 256"
    and b: "0 \<le> Math_round (rgba_b c * 255)" "Math_round (rgba_b c * 255) < 256"
    using assms Math_round_channel by blast+
  have len: "length (hex (convertColor c opac)) = 7"
    unfolding eq by (simp add: hex_byte_shape(1) r g b)
  have hash: "take 1 (hex (convertColor c opac)) = ''#''"
    unfolding eq by simp
  have digits: "set (drop 1 (hex (convertColor c opac))) \<subseteq> set ''0123456789ABCDEF''"
    unfolding eq using hex_byte_shape(2) [OF r] hex_byte_shape(2) [OF g] hex_byte_shape(2) [OF b]
    by simp
  have red: "convertColor \<lparr>rgba_r = 1, rgba_g = 0, rgba_b = 0, rgba_a = 1\<rparr> (Some 1) =
       \<lparr>hex = ''#FF0000'', cv_opacity = 1\<rparr>"
    by (subst convertColor_channels) (simp_all add: Math_round_def hex_byte_examples)
  from eq len hash digits red show ?thesis
    by (simp only: simp_thms)
qed

theorem convertColor_spec_witness:
  "convertColor \<lparr>rgba_r = 1 / 2, rgba_g = 1 / 5, rgba_b = 1, rgba_a = 1 / 2\<rparr> (Some (1 / 2)) =
     \<lparr>hex = ''#8033FF'', cv_opacity = 1 / 4\<rparr>
   \<and> convertColor \<lparr>rgba_r = 1, rgba_g = 0, rgba_b = 0, rgba_a = 1 / 2\<rparr> None =
     \<lparr>hex = ''#FF0000'', cv_opacity = 1 / 2\<rparr>"
  using convertColor_spec [of "\<lparr>rgba_r = 1 / 2, rgba_g = 1 / 5, rgba_b = 1, rgba_a = 1 / 2\<rparr>" "Some (1 / 2)"]
    convertColor_spec [of "\<lparr>rgba_r = 1, rgba_g = 0, rgba_b = 0, rgba_a = 1 / 2\<rparr>" None]
  by (simp add: Math_round_def hex_byte_examples)

section \<open>Paints\<close>

lemma formatRGBAColor_red:
  "formatRGBAColor \<lparr>rgba_r = 1, rgba_g = 0, rgba_b = 0, rgba_a = 1 / 2\<rparr> (Some (1 / 2)) =
     ''rgba(255, 0, 0, 0.25)''"
  by (simp add: formatRGBAColor_def Math_round_def int_toString_def nat_toString_eval
      digit_char_def Number_toString_examples)

lemma convertColor_red:
  "convertColor \<lparr>rgba_r = 1, rgba_g = 0, rgba_b = 0, rgba_a = 1 / 2\<rparr> (Some 1) =
     \<lparr>hex = ''#FF0000'', cv_opacity = 1 / 2\<rparr>"
  by (subst convertColor_channels) (simp_all add: Math_round_def hex_byte_examples)

lemma parsePaint_solid:
  assumes "ptype p = ''SOLID''" "color p = Some c"
  shows "parsePaint p =
     (let a = of_int (Math_round ((case opacity p of None \<Rightarrow> 1 | Some v \<Rightarrow> v) * rgba_a c * 100)) / 100
      in if a = 1 then Inr (FillColor (hex (convertColor c (opacity p))))
         else Inr (FillColor (''rgba('' @ int_toString 10 (Math_round (rgba_r c * 255)) @ '', '' @
                int_toString 10 (Math_round (rgba_g c * 255)) @ '', '' @
                int_toString 10 (Math_round (rgba_b c * 255)) @ '', '' @
                Number_toString (of_int (Math_round (a * rgba_a c * 100)) / 100) @ '')'')))"
proof -
  define a where
    "a = of_int (Math_round ((case opacity p of None \<Rightarrow> 1 | Some v \<Rightarrow> v) * rgba_a c * 100)) / (100::real)"
  have cv: "cv_opacity (convertColor c (opacity p)) = a"
    by (simp add: convertColor_def Let_def a_def)
  have "parsePaint p =
      (if a = 1 then Inr (FillColor (hex (convertColor c (opacity p))))
       else Inr (FillColor (formatRGBAColor c (Some a))))"
    using assms cv by (simp add: parsePaint_def Let_def)
  then show ?thesis
    unfolding a_def [symmetric] Let_def by (simp add: formatRGBAColor_def Let_def)
qed

text \<open>
  Claim C1 says that the alpha of the \<open>rgba\<close> string of a \<open>SOLID\<close> paint is the combined
  opacity \<open>round(opacity * alpha * 100) / 100\<close>. The code passes that combined opacity
  to \<open>formatRGBAColor\<close>, which multiplies by the colour's alpha again
  (\<open>parsePaint_solid\<close>). For pure red with alpha 0.5 and opacity 1 the combined opacity
  is 0.5, printed \<open>0.5\<close>, and the string returned carries 0.25.
\<close>

theorem parsePaint_solid_alpha_twice:
  "parsePaint half_transparent_red = Inr (FillColor ''rgba(255, 0, 0, 0.25)'')
   \<and> cv_opacity (convertColor \<lparr>rgba_r = 1, rgba_g = 0, rgba_b = 0, rgba_a = 1 / 2\<rparr> (Some 1)) = 1 / 2
   \<and> Number_toString (1 / 2) = ''0.5''"
  by (simp add: half_transparent_red_def parsePaint_def convertColor_red formatRGBAColor_red
      Number_toString_examples)

lemma convertColor_default: "convertColor c None = convertColor c (Some 1)"
  by (simp add: convertColor_def)

lemma convertColor_opacity:
  "cv_opacity (convertColor c (Some v)) = of_int (Math_round (v * rgba_a c * 100)) / 100"
  by (simp add: convertColor_def Let_def)







text \<open>
  Claim C2. For a gradient paint, \<open>parsePaint\<close> returns the paint's type, its handle
  positions and its stops, each stop keeping its position and its colour converted with
  the default outer opacity 1: the opacity of a stop is \<open>round(alpha * 100) / 100\<close>,
  whatever the opacity of the paint.
\<close>

theorem parsePaint_gradient:
  assumes "ptype p \<in> {''GRADIENT_LINEAR'', ''GRADIENT_RADIAL'', ''GRADIENT_ANGULAR'',
                       ''GRADIENT_DIAMOND''}"
    and "gradientStops p = Some stops"
  shows "parsePaint p =
           Inr (FillGradient (ptype p) (gradientHandlePositions p)
                 (map (\<lambda>s. \<lparr>gs_position = position s,
                              gs_color = convertColor (stop_color s) (Some 1)\<rparr>) stops))
       \<and> (\<forall>s \<in> set stops. cv_opacity (convertColor (stop_color s) (Some 1)) =
             of_int (Math_round (rgba_a (stop_color s) * 100)) / 100)
       \<and> parsePaint (p\<lparr>opacity := other\<rparr>) = parsePaint p"
proof -
  from assms(1) have g: "ptype p \<in> set gradient_types" and ni: "ptype p \<noteq> ''IMAGE''"
    and ns: "ptype p \<noteq> ''SOLID''"
    by (auto simp add: gradient_types_def)
  have a: "parsePaint p =
           Inr (FillGradient (ptype p) (gradientHandlePositions p)
                 (map (\<lambda>s. \<lparr>gs_position = position s,
                              gs_color = convertColor (stop_color s) (Some 1)\<rparr>) stops))"
    using g ni ns assms(2) by (simp add: parsePaint_def convertColor_default)
  have b: "\<forall>s \<in> set stops. cv_opacity (convertColor (stop_color s) (Some 1)) =
             of_int (Math_round (rgba_a (stop_color s) * 100)) / 100"
    by (simp add: convertColor_opacity)
  have c: "parsePaint (p\<lparr>opacity := other\<rparr>) = parsePaint p"
    using g ni ns assms(2) by (simp add: parsePaint_def)
  from a b c show ?thesis by blast
qed

theorem parsePaint_gradient_witness:
  "parsePaint \<lparr>ptype = ''GRADIENT_LINEAR'', color = None, opacity = Some (1 / 2),
       imageRef = None, scaleMode = None,
       gradientHandlePositions = Some [(0, 0), (1, 0), (0, 1)],
       gradientStops = Some [\<lparr>position = 0,
           stop_color = \<lparr>rgba_r = 1, rgba_g = 0, rgba_b = 0, rgba_a = 1 / 2\<rparr>\<rparr>,
         \<lparr>position = 1, stop_color = \<lparr>rgba_r = 0, rgba_g = 0, rgba_b = 1, rgba_a = 1\<rparr>\<rparr>]\<rparr>
   = Inr (FillGradient ''GRADIENT_LINEAR'' (Some [(0, 0), (1, 0), (0, 1)])
       [\<lparr>gs_position = 0, gs_color = \<lparr>hex = ''#FF0000'', cv_opacity = 1 / 2\<rparr>\<rparr>,
        \<lparr>gs_position = 1, gs_color = \<lparr>hex = ''#0000FF'', cv_opacity = 1\<rparr>\<rparr>])"
proof -
  have blue: "convertColor \<lparr>rgba_r = 0, rgba_g = 0, rgba_b = 1, rgba_a = 1\<rparr> (Some 1) =
      \<lparr>hex = ''#0000FF'', cv_opacity = 1\<rparr>"
    by (subst convertColor_channels) (simp_all add: Math_round_def hex_byte_examples)
  show ?thesis
    using parsePaint_gradient [of "\<lparr>ptype = ''GRADIENT_LINEAR'', color = None,
       opacity = Some (1 / 2), imageRef = None, scaleMode = None,
       gradientHandlePositions = Some [(0, 0), (1, 0), (0, 1)],
       gradientStops = Some [\<lparr>position = 0,
           stop_color = \<lparr>rgba_r = 1, rgba_g = 0, rgba_b = 0, rgba_a = 1 / 2\<rparr>\<rparr>,
         \<lparr>position = 1, stop_color = \<lparr>rgba_r = 0, rgba_g = 0, rgba_b = 1, rgba_a = 1\<rparr>\<rparr>]\<rparr>"
       "[\<lparr>position = 0,
           stop_color = \<lparr>rgba_r = 1, rgba_g = 0, rgba_b = 0, rgba_a = 1 / 2\<rparr>\<rparr>,
         \<lparr>position = 1, stop_color = \<lparr>rgba_r = 0, rgba_g = 0, rgba_b = 1, rgba_a = 1\<rparr>\<rparr>]"]
    by (simp add: convertColor_red blue)
qed

section \<open>Generated identifiers\<close>

lemma length_chars: "length chars = 36"
  by (simp add: chars_def)

lemma distinct_chars: "distinct chars"
  by (simp add: chars_def)

lemma generateVarId_loop_eq:
  "generateVarId_loop rnd k result n =
     (result @ concat (map (\<lambda>i. char_at chars (Math_floor (rnd (n + i) * 36))) [0..<k]), n + k)"
proof (induction k arbitrary: result n)
  case 0
  show ?case by simp
next
  case (Suc k)
  have "generateVarId_loop rnd (Suc k) result n =
      generateVarId_loop rnd k (result @ char_at chars (Math_floor (rnd n * 36))) (Suc n)"
    by (simp add: Math_random_def length_chars)
  also have "\<dots> = (result @ char_at chars (Math_floor (rnd n * 36)) @
      concat (map (\<lambda>i. char_at chars (Math_floor (rnd (Suc n + i) * 36))) [0..<k]), Suc n + k)"
    by (simp add: Suc.IH)
  also have "\<dots> = (result @
      concat (map (\<lambda>i. char_at chars (Math_floor (rnd (n + i) * 36))) [0..<Suc k]), n + Suc k)"
    by (simp add: map_upt_Suc del: upt_Suc)
  finally show ?case .
qed

lemma index_in_range:
  assumes "0 \<le> v" "v < 1"
  shows "0 \<le> Math_floor (v * 36) \<and> Math_floor (v * 36) < 36"
proof -
  have "0 \<le> v * 36" using assms by simp
  moreover have "v * 36 < 36" using assms by simp
  ultimately show ?thesis by (simp add: Math_floor_def floor_less_iff)
qed

lemma char_at_in_range:
  assumes "0 \<le> v" "v < 1"
  shows "char_at chars (Math_floor (v * 36)) = [chars ! nat (Math_floor (v * 36))]"
  using index_in_range [OF assms] by (simp add: char_at_def length_chars)

lemma token_in_range:
  assumes "draws_in_range rnd n"
  shows "concat (map (\<lambda>i. char_at chars (Math_floor (rnd (n + i) * 36))) [0..<6]) =
         map (\<lambda>j. chars ! nat j) (drawn_indices rnd n)"
proof -
  have "map (\<lambda>i. char_at chars (Math_floor (rnd (n + i) * 36))) [0..<6] =
        map (\<lambda>i. [chars ! nat (Math_floor (rnd (n + i) * 36))]) [0..<6]"
    using assms unfolding draws_in_range_def by (intro map_cong refl char_at_in_range) auto
  then have "concat (map (\<lambda>i. char_at chars (Math_floor (rnd (n + i) * 36))) [0..<6]) =
        concat (map (\<lambda>i. [chars ! nat (Math_floor (rnd (n + i) * 36))]) [0..<6])"
    by (simp only:)
  also have "\<dots> = map (\<lambda>i. chars ! nat (Math_floor (rnd (n + i) * 36))) [0..<6]"
    by (rule concat_map_singleton)
  also have "\<dots> = map (\<lambda>j. chars ! nat j) (drawn_indices rnd n)"
    by (simp only: drawn_indices_def map_map comp_def)
  finally show ?thesis .
qed

lemma generateVarId_eq:
  assumes "draws_in_range rnd n"
  shows "generateVarId rnd p n =
     ((case p of None \<Rightarrow> ''var'' | Some q \<Rightarrow> q) @ ''_'' @
        map (\<lambda>j. chars ! nat j) (drawn_indices rnd n), n + 6)"
  using token_in_range [OF assms] by (simp add: generateVarId_def generateVarId_loop_eq)

lemma drawn_indices_range:
  assumes "draws_in_range rnd n"
  shows "length (drawn_indices rnd n) = 6"
    and "\<forall>j \<in> set (drawn_indices rnd n). 0 \<le> j \<and> j < 36"
  using assms index_in_range
  by (auto simp add: drawn_indices_def draws_in_range_def simp del: upt_Suc)

lemma token_eq_iff:
  assumes "length js = length ks" "\<forall>j \<in> set js. 0 \<le> j \<and> j < 36" "\<forall>k \<in> set ks. 0 \<le> k \<and> k < 36"
  shows "map (\<lambda>j. chars ! nat j) js = map (\<lambda>j. chars ! nat j) ks \<longleftrightarrow> js = ks"
  using assms
proof (induction js ks rule: list_induct2)
  case Nil
  show ?case by simp
next
  case (Cons j js k ks)
  have "nat j < length chars" "nat k < length chars"
    using Cons.prems by (auto simp add: length_chars)
  then have "chars ! nat j = chars ! nat k \<longleftrightarrow> nat j = nat k"
    using distinct_chars by (simp add: nth_eq_iff_index_eq)
  moreover have "nat j = nat k \<longleftrightarrow> j = k"
    using Cons.prems by auto
  ultimately show ?case
    using Cons by simp
qed

text \<open>
  Claim C3, as amended. With draws in \<open>[0, 1)\<close>, a generated identifier is the prefix,
  an underscore, and a token of six characters of \<open>A\<close> to \<open>Z\<close> and \<open>0\<close> to \<open>9\<close>; two
  calls return the same identifier exactly when their prefixes are equal and the six
  indices they draw agree.
\<close>

theorem generateVarId_shape_and_collisions:
  assumes "draws_in_range rnd m" "draws_in_range rnd n"
  shows "(\<exists>token. generateVarId rnd p m =
            ((case p of None \<Rightarrow> ''var'' | Some q \<Rightarrow> q) @ ''_'' @ token, m + 6)
          \<and> length token = 6 \<and> set token \<subseteq> set chars)
       \<and> (fst (generateVarId rnd p m) = fst (generateVarId rnd p' n) \<longleftrightarrow>
            (case p of None \<Rightarrow> ''var'' | Some q \<Rightarrow> q) = (case p' of None \<Rightarrow> ''var'' | Some q \<Rightarrow> q)
            \<and> drawn_indices rnd m = drawn_indices rnd n)"
proof -
  let ?pre = "\<lambda>p. (case p of None \<Rightarrow> ''var'' | Some q \<Rightarrow> q) @ ''_''"
  let ?tok = "\<lambda>k. map (\<lambda>j. chars ! nat j) (drawn_indices rnd k)"
  note rm = drawn_indices_range [OF assms(1)] and rn = drawn_indices_range [OF assms(2)]
  have "set (?tok m) \<subseteq> set chars"
    using rm(2) by (auto simp add: length_chars)
  then have shape: "\<exists>token. generateVarId rnd p m =
            ((case p of None \<Rightarrow> ''var'' | Some q \<Rightarrow> q) @ ''_'' @ token, m + 6)
          \<and> length token = 6 \<and> set token \<subseteq> set chars"
    using generateVarId_eq [OF assms(1), of p] rm(1) by auto
  have "fst (generateVarId rnd p m) = fst (generateVarId rnd p' n) \<longleftrightarrow>
      ?pre p @ ?tok m = ?pre p' @ ?tok n"
    by (simp add: generateVarId_eq [OF assms(1)] generateVarId_eq [OF assms(2)])
  also have "\<dots> \<longleftrightarrow> ?pre p = ?pre p' \<and> ?tok m = ?tok n"
    using rm(1) rn(1) by (intro append_eq_append_conv) simp
  also have "?tok m = ?tok n \<longleftrightarrow> drawn_indices rnd m = drawn_indices rnd n"
    using rm rn by (intro token_eq_iff) simp_all
  finally show ?thesis
    using shape by simp
qed

lemma colliding_draws_in_range: "draws_in_range colliding_draws 0" "draws_in_range colliding_draws 6"
  by (simp_all add: draws_in_range_def colliding_draws_def upt_rec)

lemma colliding_draws_indices:
  "drawn_indices colliding_draws 0 = [0, 3, 7, 10, 14, 18]"
  "drawn_indices colliding_draws 6 = [0, 3, 7, 10, 14, 18]"
  by (simp_all add: drawn_indices_def colliding_draws_def upt_rec Math_floor_def)

text \<open>
  Claim C3 as stated fails: nothing but the draws separates two identifiers. With twelve
  pairwise different draws, the first and the second call of a run return the same
  identifier.
\<close>

theorem generateVarId_collision:
  "generateVarId colliding_draws None 0 = (''var_ADHKOS'', 6)
   \<and> generateVarId colliding_draws None 6 = (''var_ADHKOS'', 12)
   \<and> distinct (map colliding_draws [0, 1, 2, 3, 4, 5, 6, 7, 8, 9, 10, 11])"
proof -
  have "generateVarId colliding_draws None 0 = (''var_ADHKOS'', 6)"
    by (simp add: generateVarId_eq [OF colliding_draws_in_range(1)] colliding_draws_indices chars_def)
  moreover have "generateVarId colliding_draws None 6 = (''var_ADHKOS'', 12)"
    by (simp add: generateVarId_eq [OF colliding_draws_in_range(2)] colliding_draws_indices chars_def)
  moreover have "distinct (map colliding_draws [0, 1, 2, 3, 4, 5, 6, 7, 8, 9, 10, 11])"
    by (simp add: colliding_draws_def)
  ultimately show ?thesis by simp
qed

theorem generateVarId_shape_and_collisions_witness:
  "draws_in_range colliding_draws 0 \<and> draws_in_range colliding_draws 6
   \<and> fst (generateVarId colliding_draws (Some ''fill'') 0) =
       fst (generateVarId colliding_draws (Some ''fill'') 6)
   \<and> fst (generateVarId colliding_draws (Some ''fill'') 0) \<noteq>
       fst (generateVarId colliding_draws (Some ''stroke'') 6)"
  using generateVarId_shape_and_collisions [OF colliding_draws_in_range, of "Some ''fill''" "Some ''fill''"]
    generateVarId_shape_and_collisions [OF colliding_draws_in_range, of "Some ''fill''" "Some ''stroke''"]
    colliding_draws_in_range
  by (simp add: colliding_draws_indices)

section \<open>Hexadecimal colours\<close>

lemma decimal_digit_no_space:
  assumes "d < 10"
  shows "digit_char d \<noteq> CHR '' ''"
proof -
  have "\<forall>d \<in> set [0..<10]. digit_char d \<noteq> CHR '' ''"
    by (simp add: upt_rec digit_char_def)
  with assms show ?thesis by simp
qed

lemma nat_toString_no_space: "CHR '' '' \<notin> set (nat_toString 10 n)"
proof (induction n rule: less_induct)
  case (less n)
  show ?case
  proof (cases "n < 10")
    case True
    then show ?thesis
      using decimal_digit_no_space [of n] by (subst nat_toString.simps) auto
  next
    case False
    then have "n div 10 < n" by simp
    then have "CHR '' '' \<notin> set (nat_toString 10 (n div 10))" by (rule less.IH)
    moreover have "digit_char (n mod 10) \<noteq> CHR '' ''" by (simp add: decimal_digit_no_space)
    ultimately show ?thesis
      using False by (subst nat_toString.simps) auto
  qed
qed

lemma frac_digits_no_space:
  assumes "0 \<le> f" "f < 1"
  shows "CHR '' '' \<notin> set (frac_digits k f)"
  using assms
proof (induction k arbitrary: f)
  case 0
  show ?case by simp
next
  case (Suc k)
  let ?d = "\<lfloor>f * 10\<rfloor>"
  have d: "0 \<le> ?d" "?d < 10"
    using Suc.prems by (simp_all add: floor_less_iff)
  then have "nat ?d < 10" by linarith
  then have c: "digit_char (nat ?d) \<noteq> CHR '' ''" by (rule decimal_digit_no_space)
  have "0 \<le> f * 10 - of_int ?d" "f * 10 - of_int ?d < 1"
    by linarith+
  then have "CHR '' '' \<notin> set (frac_digits k (f * 10 - of_int ?d))" by (rule Suc.IH)
  with c show ?case by simp
qed

lemma Number_toString_no_space: "CHR '' '' \<notin> set (Number_toString v)"
proof -
  have "0 \<le> \<bar>v\<bar> - of_int \<lfloor>\<bar>v\<bar>\<rfloor>" "\<bar>v\<bar> - of_int \<lfloor>\<bar>v\<bar>\<rfloor> < 1"
    by linarith+
  then have "CHR '' '' \<notin> set (frac_digits 20 (\<bar>v\<bar> - of_int \<lfloor>\<bar>v\<bar>\<rfloor>))"
    by (rule frac_digits_no_space)
  then show ?thesis
    using nat_toString_no_space by (simp add: Number_toString_def Let_def)
qed

lemma rgba_alpha_text_read:
  assumes "CHR '' '' \<notin> set alpha"
  shows "rgba_alpha_text (front @ '', '' @ alpha @ '')'') = alpha"
proof -
  have "rev (front @ '', '' @ alpha @ '')'') = CHR '')'' # (rev alpha @ CHR '' '' # CHR '','' # rev front)"
    by simp
  then have "takeWhile (\<lambda>c. c \<noteq> CHR '' '') (drop 1 (rev (front @ '', '' @ alpha @ '')''))) = rev alpha"
    using assms by (auto simp add: takeWhile_tail)
  then show ?thesis
    by (simp add: rgba_alpha_text_def)
qed

lemma clamp_not_NaN:
  assumes "v \<noteq> NaN"
  shows "\<exists>a. Math_min (Math_max v (Finite 0)) (Finite 1) = Finite a \<and> 0 \<le> a \<and> a \<le> 1"
  using assms by (cases v) (auto simp add: Math_min_def Math_max_def)

lemma clamp_Finite:
  "Math_min (Math_max (Finite v) (Finite 0)) (Finite 1) = Finite (min (max v 0) 1)"
  by (auto simp add: Math_min_def Math_max_def)

lemma hexToRgba_alpha_not_NaN:
  assumes "opac \<noteq> Some NaN"
  shows "\<exists>a. 0 \<le> a \<and> a \<le> 1 \<and> rgba_alpha_text (hexToRgba h opac) = Number_toString a"
proof -
  have "(case opac of None \<Rightarrow> Finite 1 | Some v \<Rightarrow> v) \<noteq> NaN"
    using assms by (cases opac) simp_all
  then obtain a where a: "0 \<le> a" "a \<le> 1"
    "Math_min (Math_max (case opac of None \<Rightarrow> Finite 1 | Some v \<Rightarrow> v) (Finite 0)) (Finite 1) = Finite a"
    using clamp_not_NaN by blast
  obtain front where "hexToRgba h opac = front @ '', '' @ Number_toString a @ '')''"
    using a(3) by (simp add: hexToRgba_def Let_def js_number_toString_def)
  then have "rgba_alpha_text (hexToRgba h opac) = Number_toString a"
    using rgba_alpha_text_read [OF Number_toString_no_space] by (simp only:)
  with a show ?thesis
    by blast
qed

lemma parseInt_FF: "parseInt ''FF'' 16 = Some 255"
  by (simp add: parseInt_def is_digit_def digit_value_def is_whitespace_def)

lemma hexToRgba_white:
  "hexToRgba ''#FFF'' (Some (Finite (1 / 2))) = ''rgba(255, 255, 255, 0.5)''"
  "hexToRgba ''#FFF'' (Some (Finite 2)) = ''rgba(255, 255, 255, 1)''"
  "hexToRgba ''#FFF'' (Some (Finite (- 1))) = ''rgba(255, 255, 255, 0)''"
  by (simp_all add: hexToRgba_def substring_def channel_toString_def parseInt_FF int_toString_def
      nat_toString_eval digit_char_def Number_toString_examples Math_min_def Math_max_def
      js_number_toString_def)

text \<open>
  Claim C10 says that the alpha of the string \<open>hexToRgba\<close> returns lies in \<open>[0, 1]\<close> for
  every opacity. The clamp is \<open>Math.min(Math.max(opacity, 0), 1)\<close>, and both functions
  return \<open>NaN\<close> for \<open>NaN\<close>: for the opacity \<open>NaN\<close> the string carries the alpha \<open>NaN\<close>.
  For every other opacity the alpha is clamped (\<open>hexToRgba_alpha_not_NaN\<close>).
\<close>

theorem hexToRgba_alpha_NaN:
  "hexToRgba ''#FFF'' (Some NaN) = ''rgba(255, 255, 255, NaN)''
   \<and> rgba_alpha_text (hexToRgba ''#FFF'' (Some NaN)) = ''NaN''"
  by (simp add: hexToRgba_def substring_def channel_toString_def parseInt_FF int_toString_def
      nat_toString_eval digit_char_def Math_min_def Math_max_def js_number_toString_def
      rgba_alpha_text_def)

end
